theory Spec2Isabelle
  imports Complex_Main "HOL-Library.Sublist"
begin

section \<open>Errors\<close>

text \<open>
  Every exception the modelled code can raise is a value, named as Python names it. A
  \<^verbatim>\<open>ValueError\<close> or \<^verbatim>\<open>RuntimeError\<close> keeps its message: the code base defines no
  exception classes of its own, so the message is what tells an unsupported file format
  from an interpolation without sample points.
\<close>

datatype error =
    ValueError string
  | RuntimeError string
  | IndexError
  | ZeroDivisionError

section \<open>Data access: \<^verbatim>\<open>utils.py\<close>\<close>

subsection \<open>String helpers of the Python standard library\<close>

text \<open>\<^verbatim>\<open>str.endswith(suffix)\<close>.\<close>

definition endswith :: "string \<Rightarrow> string \<Rightarrow> bool" where
  "endswith s suf \<longleftrightarrow>
     length suf \<le> length s \<and> drop (length s - length suf) s = suf"

text \<open>\<^verbatim>\<open>str.startswith(prefix)\<close>.\<close>

definition startswith :: "string \<Rightarrow> string \<Rightarrow> bool" where
  "startswith s pre \<longleftrightarrow> take (length pre) s = pre"

text \<open>
  \<^verbatim>\<open>os.path.join(a, b)\<close> with two arguments, POSIX flavour: an absolute second component
  replaces the first; otherwise the components are glued with exactly one separator.
\<close>

definition os_path_join :: "string \<Rightarrow> string \<Rightarrow> string" where
  "os_path_join a b =
     (if startswith b ''/'' then b
      else if a = [] \<or> endswith a ''/'' then a @ b
      else a @ ''/'' @ b)"

subsection \<open>\<^verbatim>\<open>load_mne_data\<close>\<close>

text \<open>
  The two readers of the signal-processing library that \<^verbatim>\<open>load_mne_data\<close> chooses between:
  \<^verbatim>\<open>mne.io.read_raw_fif\<close> (continuous recordings) and \<^verbatim>\<open>mne.read_epochs\<close> (segmented
  recordings).
\<close>

datatype loader = read_raw_fif | read_epochs

text \<open>
  The readers themselves belong to the library, so they enter as a parameter \<open>lib\<close>: what
  reader \<open>l\<close> returns (or raises) for the path \<open>p\<close> is \<open>lib l p\<close>. The function returns,
  next to its outcome, the list of reader calls it made, so that "the file is not read" is
  a statement about the model.

  \<^verbatim>\<open>
  filepath = os.path.join(directory, filename)
  if filename.endswith(("_raw.fif", "_epo.fif")):
      loader_func = (
          mne.io.read_raw_fif if filename.endswith("_raw.fif") else mne.read_epochs
      )
      data = loader_func(filepath, preload=True, verbose=False)
  else:
      raise ValueError("Invalid file format. Supported formats: _raw.fif, _epo.fif")
  return data
  \<close>
\<close>

definition load_mne_data ::
  "(loader \<Rightarrow> string \<Rightarrow> error + 'c) \<Rightarrow> string \<Rightarrow> string
     \<Rightarrow> (loader \<times> string) list \<times> (error + 'c)" where
  "load_mne_data lib directory filename =
     (let filepath = os_path_join directory filename in
      if endswith filename ''_raw.fif'' \<or> endswith filename ''_epo.fif'' then
        (let loader_func =
               (if endswith filename ''_raw.fif'' then read_raw_fif else read_epochs)
         in ([(loader_func, filepath)], lib loader_func filepath))
      else
        ([], Inl (ValueError ''Invalid file format. Supported formats: _raw.fif, _epo.fif'')))"

section \<open>Numbers\<close>

text \<open>
  Python floats are modelled as real numbers, with exact arithmetic; the not-a-number
  value appears only in the matrices of \<^verbatim>\<open>interpolate_nans\<close> and is modelled there.

  \<^verbatim>\<open>int(x)\<close> on a float truncates toward zero.
\<close>

definition py_int :: "real \<Rightarrow> int" where
  "py_int x = (if 0 \<le> x then \<lfloor>x\<rfloor> else - \<lfloor>- x\<rfloor>)"

text \<open>\<^verbatim>\<open>round(x)\<close> on a float rounds to the nearest integer, a tie to the even one.\<close>

definition py_round :: "real \<Rightarrow> int" where
  "py_round x =
     (let f = \<lfloor>x\<rfloor>; d = x - of_int f
      in if d < 1 / 2 then f else if 1 / 2 < d then f + 1 else if even f then f else f + 1)"

section \<open>Recordings\<close>

text \<open>
  A continuous recording (\<^verbatim>\<open>mne.io.Raw\<close>) is a sampling rate and a matrix channels \<times>
  samples. The operations modelled here only cut along the time axis, so the matrix is kept
  as the list of its columns: \<open>samples r ! k\<close> is what all channels hold at sample \<open>k\<close>,
  and the type of a column is left open. Samples are numbered from 0, as in a recording
  that \<^verbatim>\<open>create_mne_raw\<close> builds from an array.
\<close>

record 'a raw =
  sfreq :: real
  samples :: "'a list"

definition n_times :: "'a raw \<Rightarrow> nat" where
  "n_times r = length (samples r)"

subsection \<open>The library's \<^verbatim>\<open>Raw.crop\<close>\<close>

text \<open>
  \<^verbatim>\<open>crop(tmin=0.0, tmax=None, include_tmax=True)\<close> is a method of the signal-processing
  library, not code of this repository; it is modelled from its documented contract, for
  the arguments the repository passes. The times are converted to sample indices by
  rounding \<open>t * sfreq\<close>, and the result keeps the samples from index \<open>smin\<close> up to and
  \<^emph>\<open>including\<close> index \<open>smax\<close>: \<^verbatim>\<open>include_tmax\<close> defaults to \<^verbatim>\<open>True\<close>, and no caller
  in this repository passes it. An omitted \<^verbatim>\<open>tmax\<close> is the time of the last sample. Times
  outside the recording are refused with \<^verbatim>\<open>ValueError\<close>.
\<close>

definition crop :: "'a raw \<Rightarrow> real \<Rightarrow> real option \<Rightarrow> error + 'a raw" where
  "crop r tmin tmax_arg =
     (let max_time = (real (n_times r) - 1) / sfreq r;
          tmax = (case tmax_arg of None \<Rightarrow> max_time | Some t \<Rightarrow> t)
      in if tmax < tmin then Inl (ValueError ''tmin must be less than tmax'')
         else if tmin < 0 then Inl (ValueError ''tmin must be >= 0'')
         else if max_time < tmax then
           Inl (ValueError ''tmax must be less than or equal to the max time'')
         else
           (let smin = py_round (tmin * sfreq r);
                smax = py_round (tmax * sfreq r)
            in Inr (r\<lparr>samples := take (nat (smax - smin + 1)) (drop (nat smin) (samples r))\<rparr>)))"

subsection \<open>The library's \<^verbatim>\<open>Epochs\<close>\<close>






section \<open>Preprocessing: \<^verbatim>\<open>preprocessing.py\<close>\<close>

subsection \<open>\<^verbatim>\<open>create_epochs\<close>\<close>



subsection \<open>Objects that are changed in place\<close>

text \<open>
  \<^verbatim>\<open>realign_final_session\<close> assigns into the list it is given, and \<^verbatim>\<open>interpolate_nans\<close>
  into the array it is given, so both are modelled over a store: a reference is an
  address, the store gives the object at each address, and a function takes the store and
  returns the new one together with its outcome.
\<close>

type_synonym ref = nat
type_synonym 'v heap = "ref \<Rightarrow> 'v"

subsection \<open>\<^verbatim>\<open>realign_final_session\<close>\<close>

text \<open>
  \<^verbatim>\<open>
  raw_final_session = mne_raw_sessions[-1]
  midpoint_samples = raw_final_session.n_times // 2
  raw_first_half = raw_final_session.copy().crop(
      tmax=midpoint_samples / raw_final_session.info["sfreq"])
  raw_second_half = raw_final_session.copy().crop(
      tmin=midpoint_samples / raw_final_session.info["sfreq"])
  mne_raw_sessions[-1] = raw_first_half
  mne_raw_sessions.append(raw_second_half)
  return mne_raw_sessions
  \<close>
  The sessions themselves are copied before they are cropped and are never written to, so
  the list holds them by value. Indexing an empty list raises \<^verbatim>\<open>IndexError\<close>, and dividing
  by a sampling rate of zero \<^verbatim>\<open>ZeroDivisionError\<close>. The list is written only after both
  crops have succeeded, and the reference returned is the one passed in.
\<close>

definition realign_final_session ::
  "ref \<Rightarrow> 'a raw list heap \<Rightarrow> (error + ref) \<times> 'a raw list heap" where
  "realign_final_session mne_raw_sessions h =
     (case h mne_raw_sessions of
        [] \<Rightarrow> (Inl IndexError, h)
      | _ # _ \<Rightarrow>
          (let raw_final_session = last (h mne_raw_sessions);
               midpoint_samples = n_times raw_final_session div 2
           in if sfreq raw_final_session = 0 then (Inl ZeroDivisionError, h)
              else
                (case crop raw_final_session 0
                        (Some (real midpoint_samples / sfreq raw_final_session)) of
                   Inl e \<Rightarrow> (Inl e, h)
                 | Inr raw_first_half \<Rightarrow>
                     (case crop raw_final_session
                             (real midpoint_samples / sfreq raw_final_session) None of
                        Inl e \<Rightarrow> (Inl e, h)
                      | Inr raw_second_half \<Rightarrow>
                          (Inr mne_raw_sessions,
                           h(mne_raw_sessions :=
                               butlast (h mne_raw_sessions)
                               @ [raw_first_half, raw_second_half]))))))"

subsection \<open>\<^verbatim>\<open>interpolate_nans\<close>\<close>

text \<open>
  A matrix is a list of channel rows; a sample is a number or not-a-number (\<open>None\<close>).
\<close>

type_synonym channel = "real option list"
type_synonym matrix = "channel list"

text \<open>
  \<^verbatim>\<open>indices[nans]\<close>, \<^verbatim>\<open>indices[~nans]\<close> and \<^verbatim>\<open>channel_data[~nans]\<close>: the positions of the
  missing samples, the positions of the valid ones, and the valid values, each in order.
  The first argument is the index of the head of the row.
\<close>

fun nan_indices :: "nat \<Rightarrow> channel \<Rightarrow> real list" where
  "nan_indices i [] = []"
| "nan_indices i (None # vs) = real i # nan_indices (Suc i) vs"
| "nan_indices i (Some v # vs) = nan_indices (Suc i) vs"

fun valid_indices :: "nat \<Rightarrow> channel \<Rightarrow> real list" where
  "valid_indices i [] = []"
| "valid_indices i (None # vs) = valid_indices (Suc i) vs"
| "valid_indices i (Some v # vs) = real i # valid_indices (Suc i) vs"

fun valid_values :: "channel \<Rightarrow> real list" where
  "valid_values [] = []"
| "valid_values (None # vs) = valid_values vs"
| "valid_values (Some v # vs) = v # valid_values vs"

text \<open>
  \<^verbatim>\<open>numpy.interp(x, xp, fp)\<close> is the array library's, modelled from its documented
  contract for increasing sample points \<open>xp\<close>: at a point left of the first sample point
  the value is the first of \<open>fp\<close>, right of the last one the last of \<open>fp\<close>, and in between
  it lies on the straight line through the two neighbouring sample points. The library
  finds the neighbours by bisection; the model walks along the points. An empty \<open>xp\<close> is
  refused with \<^verbatim>\<open>ValueError\<close>.
\<close>

fun interp_point :: "real \<Rightarrow> (real \<times> real) list \<Rightarrow> real" where
  "interp_point x [] = 0"
| "interp_point x [(x0, y0)] = y0"
| "interp_point x ((x0, y0) # (x1, y1) # ps) =
     (if x \<le> x0 then y0
      else if x < x1 then (y1 - y0) / (x1 - x0) * (x - x0) + y0
      else interp_point x ((x1, y1) # ps))"

definition np_interp :: "real list \<Rightarrow> real list \<Rightarrow> real list \<Rightarrow> error + real list" where
  "np_interp x xp fp =
     (if xp = [] then Inl (ValueError ''array of sample points is empty'')
      else if length fp \<noteq> length xp then
        Inl (ValueError ''fp and xp are not of the same length.'')
      else Inr (map (\<lambda>v. interp_point v (zip xp fp)) x))"

text \<open>
  \<^verbatim>\<open>channel_data[nans] = new\<close>: the missing samples are overwritten, in order, by the
  values of \<open>new\<close>.
\<close>

fun mask_assign :: "channel \<Rightarrow> real list \<Rightarrow> channel" where
  "mask_assign [] new = []"
| "mask_assign (Some v # vs) new = Some v # mask_assign vs new"
| "mask_assign (None # vs) (y # new) = Some y # mask_assign vs new"
| "mask_assign (None # vs) [] = None # mask_assign vs []"

text \<open>
  The body of the loop, for one channel:
  \<^verbatim>\<open>
  nans = np.isnan(channel_data)
  indices = np.arange(len(channel_data))
  channel_data[nans] = np.interp(indices[nans], indices[~nans], channel_data[~nans])
  \<close>
\<close>

definition interpolate_channel :: "channel \<Rightarrow> error + channel" where
  "interpolate_channel channel_data =
     (case np_interp (nan_indices 0 channel_data) (valid_indices 0 channel_data)
             (valid_values channel_data) of
        Inl e \<Rightarrow> Inl e
      | Inr new \<Rightarrow> Inr (mask_assign channel_data new))"

text \<open>
  \<^verbatim>\<open>
  for channel in range(data.shape[0]):
      channel_data = data[channel]
      ...
  return data
  \<close>
  \<^verbatim>\<open>data[channel]\<close> is a view of the row, so the assignment writes into the array that
  \<open>data\<close> refers to. An exception leaves the loop at once, with the rows before it already
  rewritten. The reference returned is the one passed in.
\<close>

fun interpolate_channels ::
  "nat list \<Rightarrow> ref \<Rightarrow> matrix heap \<Rightarrow> (error + unit) \<times> matrix heap" where
  "interpolate_channels [] data h = (Inr (), h)"
| "interpolate_channels (channel # rest) data h =
     (case interpolate_channel (h data ! channel) of
        Inl e \<Rightarrow> (Inl e, h)
      | Inr channel_data \<Rightarrow>
          interpolate_channels rest data (h(data := (h data)[channel := channel_data])))"

definition interpolate_nans :: "ref \<Rightarrow> matrix heap \<Rightarrow> (error + ref) \<times> matrix heap" where
  "interpolate_nans data h =
     (case interpolate_channels [0..<length (h data)] data h of
        (Inl e, h') \<Rightarrow> (Inl e, h')
      | (Inr u, h') \<Rightarrow> (Inr data, h'))"

subsection \<open>Recordings with typed channels\<close>

text \<open>
  The operations that follow act on each channel or each sample, and on channels of one
  type only, so for them a recording (\<^verbatim>\<open>mne.io.Raw\<close>) is kept as its list of channel type
  tags (\<^verbatim>\<open>"eeg"\<close> for every channel that \<^verbatim>\<open>load_channels_info\<close> describes) and its matrix
  channels \<times> samples, a list of channel rows of real numbers. In a recording of the
  library there are as many tags as rows, and all rows have the same length. Channel names
  and the list of channels marked bad are not modelled: no function of the repository
  marks a channel bad.
\<close>

record recording =
  ch_types :: "string list"
  signals :: "real list list"

text \<open>\<^verbatim>\<open>numpy.mean\<close> of a one-dimensional array.\<close>

definition np_mean :: "real list \<Rightarrow> real" where
  "np_mean xs = sum_list xs / real (length xs)"

subsection \<open>\<^verbatim>\<open>re_reference\<close>\<close>






subsection \<open>\<^verbatim>\<open>signal_detrend\<close>\<close>

text \<open>
  \<^verbatim>\<open>scipy.signal.detrend(data)\<close> with its defaults (\<^verbatim>\<open>type="linear"\<close>) belongs to the
  scientific library; it is modelled from its documented contract: the straight line
  fitted to the data by least squares, over the sample index, is subtracted from the data.
  The line is written in the closed form of the normal equations, mean plus slope times
  centred index. For a single sample the fit is the sample itself and the result is zero;
  for a row without samples the model returns the empty row.
\<close>

definition detrend :: "real list \<Rightarrow> real list" where
  "detrend y =
     (let n = length y;
          tbar = np_mean (map real [0..<n]);
          ybar = np_mean y;
          sxx = (\<Sum>k\<leftarrow>[0..<n]. (real k - tbar)\<^sup>2);
          sxy = (\<Sum>k\<leftarrow>[0..<n]. (real k - tbar) * (y ! k - ybar));
          slope = (if sxx = 0 then 0 else sxy / sxx)
      in map (\<lambda>k. y ! k - (ybar + slope * (real k - tbar))) [0..<n])"

text \<open>
  \<^verbatim>\<open>apply_function(fun, picks, channel_wise=True)\<close> is the signal-processing library's: it
  replaces the row of every channel of the picked type by what the function makes of that
  row alone, and leaves the other rows. A pick that matches no channel is a
  \<^verbatim>\<open>ValueError\<close> (its message is abridged here).
\<close>

definition apply_function ::
  "(real list \<Rightarrow> real list) \<Rightarrow> string \<Rightarrow> recording \<Rightarrow> error + recording" where
  "apply_function f picks inst =
     (if picks \<notin> set (ch_types inst) then
        Inl (ValueError ''picks could not be interpreted as channel names, channel types or a generic type'')
      else
        Inr (inst\<lparr>signals :=
               map2 (\<lambda>t row. if t = picks then f row else row) (ch_types inst) (signals inst)\<rparr>))"

text \<open>
  \<^verbatim>\<open>
  def signal_detrend(data):
      return data.copy().apply_function(detrend, picks="eeg", channel_wise=True)
  \<close>
\<close>

definition signal_detrend :: "recording \<Rightarrow> error + recording" where
  "signal_detrend data = apply_function detrend ''eeg'' data"

section \<open>Auxiliary notions for the proofs\<close>

text \<open>The sample points that \<^verbatim>\<open>numpy.interp\<close> receives for a row: index and value.\<close>

definition points :: "nat \<Rightarrow> channel \<Rightarrow> (real \<times> real) list" where
  "points i vs = zip (valid_indices i vs) (valid_values vs)"

text \<open>What one pass of the loop body makes of a row that has a valid sample.\<close>

definition interp_row :: "channel \<Rightarrow> channel" where
  "interp_row vs = mask_assign vs (map (\<lambda>x. interp_point x (points 0 vs)) (nan_indices 0 vs))"

text \<open>A row has a valid sample.\<close>

definition has_valid :: "channel \<Rightarrow> bool" where
  "has_valid vs \<longleftrightarrow> (\<exists>v\<in>set vs. v \<noteq> None)"

text \<open>
  What the specification asks of a row \<open>ws\<close> computed from a row \<open>vs\<close>: the same length, no
  missing sample left, every valid sample kept, every missing sample strictly between two
  valid ones on the straight line through its nearest valid neighbours \<open>l\<close> and \<open>r\<close>, and
  every missing sample before the first or after the last valid one equal to that valid
  sample.
\<close>

definition interpolates :: "channel \<Rightarrow> channel \<Rightarrow> bool" where
  "interpolates vs ws \<longleftrightarrow>
     length ws = length vs
   \<and> (\<forall>i<length vs.
         ws ! i \<noteq> None
       \<and> (\<forall>v. vs ! i = Some v \<longrightarrow> ws ! i = Some v)
       \<and> (\<forall>l r a b.
             l < i \<and> i < r \<and> r < length vs \<and> vs ! l = Some a \<and> vs ! r = Some b
             \<and> (\<forall>k. l < k \<and> k < r \<longrightarrow> vs ! k = None)
             \<longrightarrow> ws ! i = Some (a + (b - a) * (real i - real l) / (real r - real l)))
       \<and> (\<forall>f a.
             i < f \<and> f < length vs \<and> vs ! f = Some a \<and> (\<forall>k<f. vs ! k = None)
             \<longrightarrow> ws ! i = Some a)
       \<and> (\<forall>l a.
             l < i \<and> vs ! l = Some a \<and> (\<forall>k. l < k \<and> k < length vs \<longrightarrow> vs ! k = None)
             \<longrightarrow> ws ! i = Some a))"

text \<open>
  The parts of the least-squares line of \<open>detrend\<close>: the mean sample index, the sums of
  squares and of products about the means, the slope, and the value of the line at a
  sample.
\<close>

definition tbar :: "nat \<Rightarrow> real" where
  "tbar n = np_mean (map real [0..<n])"

definition sxx :: "nat \<Rightarrow> real" where
  "sxx n = (\<Sum>k\<leftarrow>[0..<n]. (real k - tbar n)\<^sup>2)"

definition sxy :: "real list \<Rightarrow> real" where
  "sxy y = (\<Sum>k\<leftarrow>[0..<length y]. (real k - tbar (length y)) * (y ! k - np_mean y))"

definition slope :: "real list \<Rightarrow> real" where
  "slope y = (if sxx (length y) = 0 then 0 else sxy y / sxx (length y))"

definition trend :: "real list \<Rightarrow> nat \<Rightarrow> real" where
  "trend y k = np_mean y + slope y * (real k - tbar (length y))"


section \<open>Properties of data access\<close>

lemma endswith_iff_suffix: "endswith s suf \<longleftrightarrow> suffix suf s"
proof
  assume "endswith s suf"
  then have "s = take (length s - length suf) s @ suf"
    by (metis append_take_drop_id endswith_def)
  then show "suffix suf s"
    by (metis suffixI)
next
  assume "suffix suf s"
  then obtain zs where "s = zs @ suf"
    by (auto simp: suffix_def)
  then show "endswith s suf"
    by (simp add: endswith_def)
qed

lemma endswith_same_length_unique:
  assumes "endswith s a" and "endswith s b" and "length a = length b"
  shows "a = b"
  using assms by (simp add: endswith_def)

lemma epo_is_not_raw: "endswith f ''_epo.fif'' \<Longrightarrow> \<not> endswith f ''_raw.fif''"
proof
  assume "endswith f ''_epo.fif''" and "endswith f ''_raw.fif''"
  then have "''_epo.fif'' = ''_raw.fif''"
    by (rule endswith_same_length_unique) simp
  then show False by simp
qed

text \<open>
  \<^bold>\<open>C7.\<close> \<^verbatim>\<open>load_mne_data\<close> dispatches on the suffix of the file name alone. A name ending in
  \<^verbatim>\<open>_raw.fif\<close> is handed to the reader of continuous recordings, and the outcome is that
  reader's; a name ending in \<^verbatim>\<open>_epo.fif\<close> is handed to the reader of segmented recordings;
  in both cases exactly one read is made, of \<^verbatim>\<open>os.path.join(directory, filename)\<close>. A name
  ending in neither suffix fails with the \<^verbatim>\<open>ValueError\<close> for an unsupported format, whatever
  the readers would do, and no read is made.
\<close>

theorem load_mne_data_dispatch:
  "(endswith filename ''_raw.fif'' \<longrightarrow>
      load_mne_data lib directory filename =
        ([(read_raw_fif, os_path_join directory filename)],
         lib read_raw_fif (os_path_join directory filename)))
   \<and> (endswith filename ''_epo.fif'' \<longrightarrow>
      load_mne_data lib directory filename =
        ([(read_epochs, os_path_join directory filename)],
         lib read_epochs (os_path_join directory filename)))
   \<and> (\<not> endswith filename ''_raw.fif'' \<and> \<not> endswith filename ''_epo.fif'' \<longrightarrow>
      load_mne_data lib directory filename =
        ([], Inl (ValueError ''Invalid file format. Supported formats: _raw.fif, _epo.fif'')))"
  using epo_is_not_raw [of filename] by (auto simp: load_mne_data_def Let_def)

theorem load_mne_data_dispatch_witness:
  "endswith ''sub01_raw.fif'' ''_raw.fif''
   \<and> load_mne_data (\<lambda>l p. Inr (l, p)) ''data'' ''sub01_raw.fif''
       = ([(read_raw_fif, ''data/sub01_raw.fif'')], Inr (read_raw_fif, ''data/sub01_raw.fif''))
   \<and> endswith ''sub01_epo.fif'' ''_epo.fif''
   \<and> load_mne_data (\<lambda>l p. Inr (l, p)) ''data'' ''sub01_epo.fif''
       = ([(read_epochs, ''data/sub01_epo.fif'')], Inr (read_epochs, ''data/sub01_epo.fif''))
   \<and> \<not> endswith ''sub01.csv'' ''_raw.fif'' \<and> \<not> endswith ''sub01.csv'' ''_epo.fif''
   \<and> load_mne_data (\<lambda>l p. Inr (l, p)) ''data'' ''sub01.csv''
       = ([], Inl (ValueError ''Invalid file format. Supported formats: _raw.fif, _epo.fif''))"
proof -
  have raw: "endswith ''sub01_raw.fif'' ''_raw.fif''"
    by (simp add: endswith_def)
  have epo: "endswith ''sub01_epo.fif'' ''_epo.fif''"
    by (simp add: endswith_def)
  have other: "\<not> endswith ''sub01.csv'' ''_raw.fif'' \<and> \<not> endswith ''sub01.csv'' ''_epo.fif''"
    by (simp add: endswith_def)
  have p1: "os_path_join ''data'' ''sub01_raw.fif'' = ''data/sub01_raw.fif''"
    by (simp add: os_path_join_def startswith_def endswith_def)
  have p2: "os_path_join ''data'' ''sub01_epo.fif'' = ''data/sub01_epo.fif''"
    by (simp add: os_path_join_def startswith_def endswith_def)
  show ?thesis
    using raw epo other p1 p2
      load_mne_data_dispatch [of "''sub01_raw.fif''" "\<lambda>l p. Inr (l, p)" "''data''"]
      load_mne_data_dispatch [of "''sub01_epo.fif''" "\<lambda>l p. Inr (l, p)" "''data''"]
      load_mne_data_dispatch [of "''sub01.csv''" "\<lambda>l p. Inr (l, p)" "''data''"]
    by simp
qed


section \<open>Properties of the number conversions\<close>

lemma py_round_of_int: "py_round (of_int k) = k"
  by (simp add: py_round_def Let_def)

lemma py_round_of_nat: "py_round (real n) = int n"
  using py_round_of_int [of "int n"] by simp

lemma py_int_nonneg: "0 \<le> x \<Longrightarrow> py_int x = \<lfloor>x\<rfloor>"
  by (simp add: py_int_def)

lemma py_int_neg: "x < 0 \<Longrightarrow> py_int x = \<lceil>x\<rceil>"
  by (simp add: py_int_def ceiling_def)


section \<open>Properties of \<^verbatim>\<open>create_epochs\<close>\<close>








section \<open>Properties of \<^verbatim>\<open>realign_final_session\<close>\<close>

lemma crop_first_half:
  assumes "0 < sfreq r" and "0 < n_times r"
  shows "crop r 0 (Some (real (n_times r div 2) / sfreq r))
           = Inr (r\<lparr>samples := take (n_times r div 2 + 1) (samples r)\<rparr>)"
proof -
  have "real (n_times r div 2) \<le> real (n_times r) - 1"
  proof -
    have "n_times r div 2 + 1 \<le> n_times r"
      using assms(2) by linarith
    then have "real (n_times r div 2 + 1) \<le> real (n_times r)"
      by (rule of_nat_mono)
    then show ?thesis by simp
  qed
  then have "\<not> (real (n_times r) - 1) / sfreq r < real (n_times r div 2) / sfreq r"
    using assms(1) by (simp add: divide_less_cancel)
  moreover have "\<not> real (n_times r div 2) / sfreq r < 0"
    using assms(1) by (simp add: divide_less_0_iff)
  moreover have "py_round (real (n_times r div 2) / sfreq r * sfreq r) = int (n_times r div 2)"
    using assms(1) py_round_of_nat [of "n_times r div 2"] by simp
  moreover have "py_round (0 * sfreq r) = 0"
    by (simp add: py_round_def)
  ultimately show ?thesis
    by (simp add: crop_def Let_def nat_add_distrib)
qed

lemma crop_second_half:
  assumes "0 < sfreq r" and "0 < n_times r"
  shows "crop r (real (n_times r div 2) / sfreq r) None
           = Inr (r\<lparr>samples := drop (n_times r div 2) (samples r)\<rparr>)"
proof -
  have le: "real (n_times r div 2) \<le> real (n_times r) - 1"
  proof -
    have "n_times r div 2 + 1 \<le> n_times r"
      using assms(2) by linarith
    then have "real (n_times r div 2 + 1) \<le> real (n_times r)"
      by (rule of_nat_mono)
    then show ?thesis by simp
  qed
  then have "\<not> (real (n_times r) - 1) / sfreq r < real (n_times r div 2) / sfreq r"
    using assms(1) by (simp add: divide_less_cancel)
  moreover have "\<not> real (n_times r div 2) / sfreq r < 0"
    using assms(1) by (simp add: divide_less_0_iff)
  moreover have "py_round (real (n_times r div 2) / sfreq r * sfreq r) = int (n_times r div 2)"
    using assms(1) py_round_of_nat [of "n_times r div 2"] by simp
  moreover have "py_round ((real (n_times r) - 1) / sfreq r * sfreq r) = int (n_times r) - 1"
    using assms py_round_of_int [of "int (n_times r) - 1"] by simp
  ultimately show ?thesis
    by (simp add: crop_def Let_def n_times_def)
qed

lemma realign_single_session:
  assumes "h l = [s]" and "0 < sfreq s" and "0 < n_times s"
  shows "realign_final_session l h =
           (Inr l, h(l := [s\<lparr>samples := take (n_times s div 2 + 1) (samples s)\<rparr>,
                           s\<lparr>samples := drop (n_times s div 2) (samples s)\<rparr>]))"
  using assms by (simp add: realign_final_session_def crop_first_half crop_second_half Let_def)

text \<open>
  \<^bold>\<open>C1.\<close> The claim: \<^verbatim>\<open>realign_final_session([s])\<close> on a session of \<open>N\<close> samples yields
  two sessions of \<open>\<lfloor>N/2\<rfloor>\<close> and \<open>N - \<lfloor>N/2\<rfloor>\<close> samples whose concatenation is \<open>s\<close>. The
  code does not do this. \<^verbatim>\<open>crop\<close> includes the sample at \<^verbatim>\<open>tmax\<close>, so the first half
  is the samples 0 to \<open>\<lfloor>N/2\<rfloor>\<close> inclusive (lemma \<open>realign_single_session\<close>): it has
  \<open>\<lfloor>N/2\<rfloor> + 1\<close> samples, and the sample at the midpoint is in both halves. For the
  session of the four samples 10, 11, 12, 13 the halves are 10, 11, 12 and 12, 13.
\<close>

theorem realign_final_session_overlap:
  "realign_final_session 0 (\<lambda>_. [\<lparr>sfreq = 100, samples = [10, 11, 12, 13 :: nat]\<rparr>])
     = (Inr 0, (\<lambda>_. [\<lparr>sfreq = 100, samples = [10, 11, 12, 13]\<rparr>])
                 (0 := [\<lparr>sfreq = 100, samples = [10, 11, 12]\<rparr>,
                        \<lparr>sfreq = 100, samples = [12, 13]\<rparr>]))"
  by (simp add: realign_final_session_def crop_def n_times_def py_round_def Let_def)

section \<open>Properties of the interpolation\<close>

lemma length_valid_values: "length (valid_values vs) = length (valid_indices i vs)"
  by (induction i vs rule: valid_indices.induct) auto

lemma valid_indices_empty_iff: "valid_indices i vs = [] \<longleftrightarrow> (\<forall>v\<in>set vs. v = None)"
  by (induction i vs rule: valid_indices.induct) auto

lemma interpolate_channel_cases:
  "interpolate_channel vs =
     (if \<forall>v\<in>set vs. v = None then Inl (ValueError ''array of sample points is empty'')
      else Inr (interp_row vs))"
  by (simp add: interpolate_channel_def np_interp_def valid_indices_empty_iff
      length_valid_values [of vs 0] interp_row_def points_def)

lemma points_simps:
  "points i [] = []"
  "points i (None # vs) = points (Suc i) vs"
  "points i (Some v # vs) = (real i, v) # points (Suc i) vs"
  by (simp_all add: points_def)

lemma length_mask_assign: "length (mask_assign vs new) = length vs"
  by (induction vs new rule: mask_assign.induct) auto

lemma mask_assign_nth:
  "j < length vs \<Longrightarrow>
   mask_assign vs (map f (nan_indices k vs)) ! j =
     (case vs ! j of Some v \<Rightarrow> Some v | None \<Rightarrow> Some (f (real k + real j)))"
proof (induction k vs arbitrary: j rule: nan_indices.induct)
  case (1 i)
  then show ?case by simp
next
  case (2 i vs)
  then show ?case by (cases j) (auto simp: algebra_simps split: option.splits)
next
  case (3 i v vs)
  then show ?case by (cases j) (auto simp: algebra_simps split: option.splits)
qed

lemma in_set_points:
  "(x, v) \<in> set (points k vs) \<longleftrightarrow> (\<exists>j<length vs. x = real k + real j \<and> vs ! j = Some v)"
proof (induction k vs rule: valid_indices.induct)
  case (1 i)
  then show ?case by (simp add: points_simps)
next
  case (2 i vs)
  then show ?case by (simp add: points_simps Ex_less_Suc2 algebra_simps)
next
  case (3 i v vs)
  then show ?case by (auto simp: points_simps Ex_less_Suc2 algebra_simps)
qed

lemma points_lower: "p \<in> set (points k vs) \<Longrightarrow> real k \<le> fst p"
  by (cases p) (auto simp: in_set_points)

lemma sorted_points: "sorted_wrt (\<lambda>p q. fst p < fst q) (points k vs)"
proof (induction k vs rule: valid_indices.induct)
  case (3 i v vs)
  then show ?case
    using points_lower [of _ "Suc i" vs] by (fastforce simp: points_simps)
qed (simp_all add: points_simps)

lemma interp_point_hd: "ps \<noteq> [] \<Longrightarrow> x \<le> fst (hd ps) \<Longrightarrow> interp_point x ps = snd (hd ps)"
  by (induction x ps rule: interp_point.induct) simp_all

lemma interp_point_left:
  assumes "sorted_wrt (\<lambda>p q. fst p < fst q) ps" and "(x0, y0) \<in> set ps"
    and "\<forall>p\<in>set ps. x0 \<le> fst p" and "x \<le> x0"
  shows "interp_point x ps = y0"
proof (cases ps)
  case Nil
  with assms(2) show ?thesis by simp
next
  case (Cons p qs)
  have "x0 \<le> fst p"
    using assms(3) Cons by simp
  moreover have "(x0, y0) \<notin> set qs"
  proof
    assume "(x0, y0) \<in> set qs"
    then have "fst p < x0" using assms(1) Cons by auto
    with \<open>x0 \<le> fst p\<close> show False by simp
  qed
  ultimately have "p = (x0, y0)"
    using assms(2) Cons by auto
  then show ?thesis
    using interp_point_hd [of ps x] Cons assms(4) by simp
qed

lemma interp_point_right:
  assumes "sorted_wrt (\<lambda>p q. fst p < fst q) ps" and "(x1, y1) \<in> set ps"
    and "\<forall>p\<in>set ps. fst p \<le> x1" and "x1 \<le> x"
  shows "interp_point x ps = y1"
  using assms
proof (induction x ps rule: interp_point.induct)
  case (1 x)
  then show ?case by simp
next
  case (2 x x0 y0)
  then show ?case by simp
next
  case (3 x xa ya xb yb ps)
  have ab: "xa < xb" and b_low: "\<forall>p\<in>set ps. xb < fst p"
    using "3.prems"(1) by auto
  have "xb \<le> x1"
    using "3.prems"(3) by simp
  then have x_ge: "\<not> x \<le> xa" "\<not> x < xb"
    using ab "3.prems"(4) by auto
  have "(x1, y1) \<noteq> (xa, ya)"
    using ab \<open>xb \<le> x1\<close> by auto
  then have "(x1, y1) \<in> set ((xb, yb) # ps)"
    using "3.prems"(2) by auto
  then have "interp_point x ((xb, yb) # ps) = y1"
    using "3.IH" [OF x_ge] "3.prems" by auto
  then show ?case
    using x_ge by simp
qed

lemma interp_point_between:
  assumes "sorted_wrt (\<lambda>p q. fst p < fst q) ps"
    and "(x0, y0) \<in> set ps" and "(x1, y1) \<in> set ps"
    and "\<forall>p\<in>set ps. \<not> (x0 < fst p \<and> fst p < x1)"
    and "x0 < x" and "x < x1"
  shows "interp_point x ps = (y1 - y0) / (x1 - x0) * (x - x0) + y0"
  using assms
proof (induction x ps rule: interp_point.induct)
  case (1 x)
  then show ?case by simp
next
  case (2 x xa ya)
  then show ?case by simp
next
  case (3 x xa ya xb yb ps)
  have ab: "xa < xb" and a_low: "\<forall>p\<in>set ps. xa < fst p" and b_low: "\<forall>p\<in>set ps. xb < fst p"
    using "3.prems"(1) by auto
  have mem0: "(x0, y0) = (xa, ya) \<or> (x0, y0) = (xb, yb) \<or> (x0, y0) \<in> set ps"
    using "3.prems"(2) by auto
  have mem1: "(x1, y1) = (xa, ya) \<or> (x1, y1) = (xb, yb) \<or> (x1, y1) \<in> set ps"
    using "3.prems"(3) by auto
  have gap: "\<not> (x0 < xb \<and> xb < x1)"
    using "3.prems"(4) by auto
  show ?case
  proof (cases "x \<le> xa")
    case True
    with mem0 ab a_low "3.prems"(5) show ?thesis by fastforce
  next
    case False
    note xa_lt = this
    show ?thesis
    proof (cases "x < xb")
      case True
      have "x0 = xa \<and> y0 = ya"
        using mem0 b_low True "3.prems"(5) by fastforce
      moreover have "x1 = xb \<and> y1 = yb"
      proof -
        have "x1 \<noteq> xa"
          using xa_lt "3.prems"(6) by auto
        moreover have "(x1, y1) \<notin> set ps"
        proof
          assume "(x1, y1) \<in> set ps"
          then have "xb < x1" using b_low by auto
          with gap ab \<open>x0 = xa \<and> y0 = ya\<close> show False by simp
        qed
        ultimately show ?thesis using mem1 by simp
      qed
      ultimately show ?thesis
        using xa_lt True by simp
    next
      case False
      have in0: "(x0, y0) \<in> set ((xb, yb) # ps)"
        using mem0 gap False ab "3.prems"(5,6) by auto
      have in1: "(x1, y1) \<in> set ((xb, yb) # ps)"
        using mem1 False ab "3.prems"(6) by auto
      have "interp_point x ((xb, yb) # ps) = (y1 - y0) / (x1 - x0) * (x - x0) + y0"
        using "3.IH" [OF xa_lt False _ in0 in1] "3.prems" by auto
      then show ?thesis
        using xa_lt False by simp
    qed
  qed
qed

lemma length_interp_row: "length (interp_row vs) = length vs"
  by (simp add: interp_row_def length_mask_assign)

lemma interp_row_nth:
  "j < length vs \<Longrightarrow>
   interp_row vs ! j =
     (case vs ! j of Some v \<Rightarrow> Some v | None \<Rightarrow> Some (interp_point (real j) (points 0 vs)))"
  using mask_assign_nth [of j vs "\<lambda>x. interp_point x (points 0 vs)" 0]
  by (simp add: interp_row_def split: option.splits)

lemma interp_row_valid: "i < length vs \<Longrightarrow> vs ! i = Some v \<Longrightarrow> interp_row vs ! i = Some v"
  by (simp add: interp_row_nth)

lemma interp_row_no_nan: "i < length vs \<Longrightarrow> interp_row vs ! i \<noteq> None"
  by (simp add: interp_row_nth split: option.splits)

lemma interp_row_between:
  assumes "l < i" and "i < r" and "r < length vs"
    and "vs ! l = Some a" and "vs ! r = Some b"
    and "\<forall>k. l < k \<and> k < r \<longrightarrow> vs ! k = None"
  shows "interp_row vs ! i = Some (a + (b - a) * (real i - real l) / (real r - real l))"
proof -
  have nan: "vs ! i = None"
    using assms by simp
  have "interp_point (real i) (points 0 vs)
          = (b - a) / (real r - real l) * (real i - real l) + a"
  proof (rule interp_point_between [OF sorted_points])
    show "(real l, a) \<in> set (points 0 vs)"
      using assms by (auto simp: in_set_points)
    show "(real r, b) \<in> set (points 0 vs)"
      using assms by (auto simp: in_set_points)
    show "\<forall>p\<in>set (points 0 vs). \<not> (real l < fst p \<and> fst p < real r)"
    proof
      fix p assume "p \<in> set (points 0 vs)"
      then obtain j where "j < length vs" "fst p = real j" "vs ! j \<noteq> None"
        using in_set_points [of "fst p" "snd p" 0 vs] by auto
      then show "\<not> (real l < fst p \<and> fst p < real r)"
        using assms(6) by auto
    qed
    show "real l < real i" "real i < real r"
      using assms by simp_all
  qed
  then show ?thesis
    using nan assms by (simp add: interp_row_nth)
qed

lemma interp_row_leading:
  assumes "i < f" and "f < length vs" and "vs ! f = Some a" and "\<forall>k<f. vs ! k = None"
  shows "interp_row vs ! i = Some a"
proof -
  have "interp_point (real i) (points 0 vs) = a"
  proof (rule interp_point_left [OF sorted_points])
    show "(real f, a) \<in> set (points 0 vs)"
      using assms by (auto simp: in_set_points)
    show "\<forall>p\<in>set (points 0 vs). real f \<le> fst p"
    proof
      fix p assume "p \<in> set (points 0 vs)"
      then obtain j where "j < length vs" "fst p = real j" "vs ! j \<noteq> None"
        using in_set_points [of "fst p" "snd p" 0 vs] by auto
      then show "real f \<le> fst p"
        using assms(4) by (cases "j < f") auto
    qed
    show "real i \<le> real f"
      using assms by simp
  qed
  then show ?thesis
    using assms by (simp add: interp_row_nth)
qed

lemma interp_row_trailing:
  assumes "l < i" and "i < length vs" and "vs ! l = Some a"
    and "\<forall>k. l < k \<and> k < length vs \<longrightarrow> vs ! k = None"
  shows "interp_row vs ! i = Some a"
proof -
  have "interp_point (real i) (points 0 vs) = a"
  proof (rule interp_point_right [OF sorted_points])
    show "(real l, a) \<in> set (points 0 vs)"
      using assms by (auto simp: in_set_points)
    show "\<forall>p\<in>set (points 0 vs). fst p \<le> real l"
    proof
      fix p assume "p \<in> set (points 0 vs)"
      then obtain j where "j < length vs" "fst p = real j" "vs ! j \<noteq> None"
        using in_set_points [of "fst p" "snd p" 0 vs] by auto
      then show "fst p \<le> real l"
        using assms(4) by (cases "l < j") auto
    qed
    show "real l \<le> real i"
      using assms by simp
  qed
  then show ?thesis
    using assms by (simp add: interp_row_nth)
qed

lemma interpolate_channel_ok: "has_valid vs \<Longrightarrow> interpolate_channel vs = Inr (interp_row vs)"
  by (auto simp: interpolate_channel_cases has_valid_def)

lemma interpolate_channel_fail:
  "\<not> has_valid vs \<Longrightarrow> interpolate_channel vs = Inl (ValueError ''array of sample points is empty'')"
  by (auto simp: interpolate_channel_cases has_valid_def)

lemma interpolate_channels_ok:
  assumes "distinct cs" and "\<forall>c\<in>set cs. c < length (h data) \<and> has_valid (h data ! c)"
  shows "interpolate_channels cs data h =
           (Inr (), h(data := map (\<lambda>c. if c \<in> set cs then interp_row (h data ! c) else h data ! c)
                                 [0..<length (h data)]))"
  using assms
proof (induction cs arbitrary: h)
  case Nil
  have "map (\<lambda>c. h data ! c) [0..<length (h data)] = h data"
    by (simp add: map_nth)
  then show ?case by simp
next
  case (Cons c cs)
  let ?h' = "h(data := (h data)[c := interp_row (h data ! c)])"
  have c: "c < length (h data)" "has_valid (h data ! c)" "c \<notin> set cs"
    using Cons.prems by auto
  have ih: "interpolate_channels cs data ?h' =
          (Inr (), ?h'(data := map (\<lambda>k. if k \<in> set cs then interp_row (?h' data ! k) else ?h' data ! k)
                                 [0..<length (?h' data)]))"
  proof (rule Cons.IH)
    show "distinct cs" using Cons.prems by simp
    show "\<forall>k\<in>set cs. k < length (?h' data) \<and> has_valid (?h' data ! k)"
    proof
      fix k assume k: "k \<in> set cs"
      then have "k \<noteq> c" using c by auto
      then show "k < length (?h' data) \<and> has_valid (?h' data ! k)"
        using Cons.prems k by simp
    qed
  qed
  have rows: "map (\<lambda>k. if k \<in> set cs then interp_row (?h' data ! k) else ?h' data ! k)
                   [0..<length (?h' data)]
                 = map (\<lambda>k. if k \<in> set (c # cs) then interp_row (h data ! k) else h data ! k)
                   [0..<length (h data)]"
    using c by (auto simp: nth_list_update)
  have step: "interpolate_channels (c # cs) data h = interpolate_channels cs data ?h'"
    using c by (simp add: interpolate_channel_ok)
  show ?case
    unfolding step ih rows by (simp only: fun_upd_upd)
qed

lemma interpolate_nans_ok:
  assumes "\<forall>row\<in>set (h data). has_valid row"
  shows "interpolate_nans data h = (Inr data, h(data := map interp_row (h data)))"
proof -
  have "interpolate_channels [0..<length (h data)] data h =
          (Inr (), h(data := map (\<lambda>c. if c \<in> set [0..<length (h data)]
                                        then interp_row (h data ! c) else h data ! c)
                                 [0..<length (h data)]))"
    using assms by (intro interpolate_channels_ok) auto
  moreover have "map (\<lambda>c. if c \<in> set [0..<length (h data)]
                                        then interp_row (h data ! c) else h data ! c)
                                 [0..<length (h data)] = map interp_row (h data)"
    by (rule nth_equalityI) auto
  ultimately show ?thesis
    by (simp add: interpolate_nans_def)
qed

lemma interpolate_channels_fail:
  assumes "\<exists>c\<in>set cs. c < length (h data) \<and> \<not> has_valid (h data ! c)" and "distinct cs"
    and "\<forall>c\<in>set cs. c < length (h data)"
  shows "fst (interpolate_channels cs data h) = Inl (ValueError ''array of sample points is empty'')"
  using assms
proof (induction cs arbitrary: h)
  case Nil
  then show ?case by simp
next
  case (Cons c cs)
  show ?case
  proof (cases "has_valid (h data ! c)")
    case False
    then show ?thesis by (simp add: interpolate_channel_fail)
  next
    case True
    let ?h' = "h(data := (h data)[c := interp_row (h data ! c)])"
    have "fst (interpolate_channels cs data ?h') = Inl (ValueError ''array of sample points is empty'')"
    proof (rule Cons.IH)
      obtain k where k: "k \<in> set (c # cs)" "k < length (h data)" "\<not> has_valid (h data ! k)"
        using Cons.prems(1) by auto
      then have "k \<noteq> c" "k \<in> set cs"
        using True by auto
      then show "\<exists>k\<in>set cs. k < length (?h' data) \<and> \<not> has_valid (?h' data ! k)"
        using k by (intro bexI [of _ k]) simp_all
      show "distinct cs" using Cons.prems by simp
      show "\<forall>k\<in>set cs. k < length (?h' data)" using Cons.prems by simp
    qed
    then show ?thesis
      using True by (simp add: interpolate_channel_ok)
  qed
qed

lemma interpolate_nans_fail:
  assumes "\<exists>row\<in>set (h data). \<forall>v\<in>set row. v = None"
  shows "fst (interpolate_nans data h) = Inl (ValueError ''array of sample points is empty'')"
proof -
  obtain c where "c < length (h data)" "\<not> has_valid (h data ! c)"
    using assms by (auto simp: in_set_conv_nth has_valid_def)
  then have "fst (interpolate_channels [0..<length (h data)] data h)
               = Inl (ValueError ''array of sample points is empty'')"
    by (intro interpolate_channels_fail) auto
  then show ?thesis
    by (auto simp: interpolate_nans_def split: prod.splits sum.splits)
qed

lemma interpolates_interp_row: "interpolates vs (interp_row vs)"
  unfolding interpolates_def
proof (intro conjI allI impI)
  show "length (interp_row vs) = length vs"
    by (rule length_interp_row)
next
  fix i assume "i < length vs"
  then show "interp_row vs ! i \<noteq> None"
    by (rule interp_row_no_nan)
next
  fix i v assume "i < length vs" and "vs ! i = Some v"
  then show "interp_row vs ! i = Some v"
    by (rule interp_row_valid)
next
  fix i l r a b
  assume "l < i \<and> i < r \<and> r < length vs \<and> vs ! l = Some a \<and> vs ! r = Some b
            \<and> (\<forall>k. l < k \<and> k < r \<longrightarrow> vs ! k = None)"
  then have "l < i" "i < r" "r < length vs" "vs ! l = Some a" "vs ! r = Some b"
    "\<forall>k. l < k \<and> k < r \<longrightarrow> vs ! k = None"
    by simp_all
  then show "interp_row vs ! i = Some (a + (b - a) * (real i - real l) / (real r - real l))"
    by (rule interp_row_between)
next
  fix i f a
  assume "i < f \<and> f < length vs \<and> vs ! f = Some a \<and> (\<forall>k<f. vs ! k = None)"
  then have "i < f" "f < length vs" "vs ! f = Some a" "\<forall>k<f. vs ! k = None"
    by simp_all
  then show "interp_row vs ! i = Some a"
    by (rule interp_row_leading)
next
  fix i l a
  assume "i < length vs"
    and "l < i \<and> vs ! l = Some a \<and> (\<forall>k. l < k \<and> k < length vs \<longrightarrow> vs ! k = None)"
  then have "l < i" "i < length vs" "vs ! l = Some a"
    "\<forall>k. l < k \<and> k < length vs \<longrightarrow> vs ! k = None"
    by simp_all
  then show "interp_row vs ! i = Some a"
    by (rule interp_row_trailing)
qed

lemma interpolates_length: "interpolates vs ws \<Longrightarrow> length ws = length vs"
  by (simp add: interpolates_def)

lemma interpolates_valid:
  "interpolates vs ws \<Longrightarrow> i < length vs \<Longrightarrow> vs ! i = Some v \<Longrightarrow> ws ! i = Some v"
  by (simp add: interpolates_def)

lemma interpolates_between:
  assumes "interpolates vs ws" and "l < i" and "i < r" and "r < length vs"
    and "vs ! l = Some a" and "vs ! r = Some b"
    and "\<forall>k. l < k \<and> k < r \<longrightarrow> vs ! k = None"
  shows "ws ! i = Some (a + (b - a) * (real i - real l) / (real r - real l))"
proof -
  have "i < length vs"
    using assms(3,4) by simp
  with assms(1) have
    "\<forall>l r a b.
        l < i \<and> i < r \<and> r < length vs \<and> vs ! l = Some a \<and> vs ! r = Some b
        \<and> (\<forall>k. l < k \<and> k < r \<longrightarrow> vs ! k = None)
        \<longrightarrow> ws ! i = Some (a + (b - a) * (real i - real l) / (real r - real l))"
    by (simp add: interpolates_def)
  then show ?thesis
    using assms(2-) by blast
qed

text \<open>
  \<^bold>\<open>C2.\<close> When every channel row of the matrix has a valid sample, \<^verbatim>\<open>interpolate_nans\<close>
  succeeds, and every row of the matrix it leaves is the interpolation of the row it found:
  each missing sample that lies strictly between valid samples is replaced by the linear
  interpolation between its nearest valid neighbours by sample index, each missing sample
  before the first or after the last valid sample takes the value of that sample, the valid
  samples stay, and no missing sample remains. In particular the row 1, NaN, 3, NaN, NaN, 6
  becomes 1, 2, 3, 4, 5, 6. Numbers are real numbers here, so the arithmetic is exact.
\<close>

theorem interpolate_nans_linear:
  assumes "\<forall>row\<in>set (h data). \<exists>v. Some v \<in> set row"
  shows "\<exists>M. interpolate_nans data h = (Inr data, h(data := M))
           \<and> length M = length (h data)
           \<and> (\<forall>c<length M. interpolates (h data ! c) (M ! c))"
proof -
  have "\<forall>row\<in>set (h data). has_valid row"
    using assms by (force simp: has_valid_def)
  then have run: "interpolate_nans data h = (Inr data, h(data := map interp_row (h data)))"
    by (rule interpolate_nans_ok)
  show ?thesis
  proof (intro exI conjI)
    show "interpolate_nans data h = (Inr data, h(data := map interp_row (h data)))"
      by (rule run)
    show "length (map interp_row (h data)) = length (h data)"
      by simp
    show "\<forall>c<length (map interp_row (h data)).
            interpolates (h data ! c) (map interp_row (h data) ! c)"
      by (simp add: interpolates_interp_row)
  qed
qed

theorem interpolate_nans_linear_witness:
  "(\<exists>v. Some v \<in> set [Some (1::real), None, Some 3, None, None, Some 6])
   \<and> interpolate_nans 0 (\<lambda>_. [[Some 1, None, Some 3, None, None, Some 6]])
       = (Inr 0, (\<lambda>_. [[Some 1, None, Some 3, None, None, Some 6]])
                   (0 := [[Some 1, Some 2, Some 3, Some 4, Some 5, Some 6]]))"
proof -
  let ?row = "[Some 1, None, Some 3, None, None, Some 6] :: channel"
  have hyp: "\<forall>row\<in>set [?row]. \<exists>v. Some v \<in> set row"
    by auto
  from interpolate_nans_linear [of "\<lambda>_. [?row]" 0, OF hyp]
  obtain M where run: "interpolate_nans 0 (\<lambda>_. [?row]) = (Inr 0, (\<lambda>_. [?row])(0 := M))"
    and len: "length M = length [?row]"
    and rows: "\<forall>c<length M. interpolates ([?row] ! c) (M ! c)"
    by blast
  have r: "interpolates ?row (M ! 0)"
    using rows len by simp
  have l6: "length (M ! 0) = 6"
    using interpolates_length [OF r] by simp
  have e0: "M ! 0 ! 0 = Some 1"
    using interpolates_valid [OF r, of 0 1] by simp
  have gap1: "\<forall>k. 0 < k \<and> k < 2 \<longrightarrow> ?row ! k = None"
  proof (intro allI impI)
    fix k :: nat assume "0 < k \<and> k < 2"
    then have "k = 1" by auto
    then show "?row ! k = None" by simp
  qed
  have gap2: "\<forall>k. 2 < k \<and> k < 5 \<longrightarrow> ?row ! k = None"
  proof (intro allI impI)
    fix k :: nat assume "2 < k \<and> k < 5"
    then have "k = 3 \<or> k = 4" by auto
    then show "?row ! k = None" by auto
  qed
  have "M ! 0 ! 1 = Some (1 + (3 - 1) * (real 1 - real 0) / (real 2 - real 0))"
    by (rule interpolates_between [OF r _ _ _ _ _ gap1]) simp_all
  then have e1: "M ! 0 ! 1 = Some 2"
    by simp
  have e2: "M ! 0 ! 2 = Some 3"
    using interpolates_valid [OF r, of 2 3] by simp
  have "M ! 0 ! 3 = Some (3 + (6 - 3) * (real 3 - real 2) / (real 5 - real 2))"
    by (rule interpolates_between [OF r _ _ _ _ _ gap2]) simp_all
  then have e3: "M ! 0 ! 3 = Some 4"
    by simp
  have "M ! 0 ! 4 = Some (3 + (6 - 3) * (real 4 - real 2) / (real 5 - real 2))"
    by (rule interpolates_between [OF r _ _ _ _ _ gap2]) simp_all
  then have e4: "M ! 0 ! 4 = Some 5"
    by simp
  have e5: "M ! 0 ! 5 = Some 6"
    using interpolates_valid [OF r, of 5 6] by simp
  have "M ! 0 = [Some 1, Some 2, Some 3, Some 4, Some 5, Some 6]"
  proof (rule nth_equalityI)
    show "length (M ! 0) = length [Some 1, Some 2, Some 3, Some 4, Some 5, Some (6::real)]"
      using l6 by simp
    fix i assume "i < length (M ! 0)"
    then have "i = 0 \<or> i = 1 \<or> i = 2 \<or> i = 3 \<or> i = 4 \<or> i = 5"
      using l6 by auto
    then show "M ! 0 ! i = [Some 1, Some 2, Some 3, Some 4, Some 5, Some 6] ! i"
      using e0 e1 e2 e3 e4 e5 by auto
  qed
  moreover have "M = [M ! 0]"
    using len by (cases M) auto
  ultimately have "M = [[Some 1, Some 2, Some 3, Some 4, Some 5, Some 6]]"
    by simp
  with run hyp show ?thesis
    by simp
qed

text \<open>
  \<^bold>\<open>C6.\<close> For a matrix in which some channel row has no valid sample, \<^verbatim>\<open>interpolate_nans\<close>
  fails rather than returning a result. The exception is the \<^verbatim>\<open>ValueError\<close> that
  \<^verbatim>\<open>numpy.interp\<close> raises for an empty array of sample points; the specification calls this
  failure \<^verbatim>\<open>InsufficientDataError\<close>.
\<close>

theorem interpolate_nans_no_valid_samples:
  assumes "\<exists>row\<in>set (h data). \<forall>v\<in>set row. v = None"
  shows "fst (interpolate_nans data h) = Inl (ValueError ''array of sample points is empty'')"
  using assms by (rule interpolate_nans_fail)

theorem interpolate_nans_no_valid_samples_witness:
  "(\<exists>row\<in>set [[Some (1::real), None], [None, None]]. \<forall>v\<in>set row. v = None)
   \<and> fst (interpolate_nans 0 (\<lambda>_. [[Some 1, None], [None, None]]))
       = Inl (ValueError ''array of sample points is empty'')"
proof
  show hyp: "\<exists>row\<in>set [[Some (1::real), None], [None, None]]. \<forall>v\<in>set row. v = None"
    by simp
  show "fst (interpolate_nans 0 (\<lambda>_. [[Some 1, None], [None, None]]))
          = Inl (ValueError ''array of sample points is empty'')"
    using interpolate_nans_no_valid_samples [of "\<lambda>_. [[Some 1, None], [None, None]]" 0] hyp
    by simp
qed

section \<open>Effects on the arguments\<close>









section \<open>Properties of \<^verbatim>\<open>signal_detrend\<close>\<close>

lemma detrend_eq: "detrend y = map (\<lambda>k. y ! k - trend y k) [0..<length y]"
  by (simp add: detrend_def trend_def slope_def sxx_def sxy_def tbar_def Let_def)

lemma length_detrend: "length (detrend y) = length y"
  by (simp add: detrend_eq)

lemma detrend_nth: "k < length y \<Longrightarrow> detrend y ! k = y ! k - trend y k"
  by (simp add: detrend_eq)

lemma sum_list_upt: "(\<Sum>k\<leftarrow>[0..<n]. f k) = (\<Sum>k<n. f k)" for f :: "nat \<Rightarrow> real"
  by (simp add: interv_sum_list_conv_sum_set_nat atLeast0LessThan)

lemma np_mean_sum: "np_mean y = (\<Sum>k<length y. y ! k) / real (length y)"
  by (simp add: np_mean_def sum_list_sum_nth atLeast0LessThan)

lemma tbar_sum: "tbar n = (\<Sum>k<n. real k) / real n"
  by (simp add: tbar_def np_mean_def sum_list_upt)

lemma centred_times: "(\<Sum>k<n. real k - tbar n) = 0"
  by (cases "n = 0") (simp_all add: sum_subtractf tbar_sum)

lemma centred_values: "(\<Sum>k<length y. y ! k - np_mean y) = 0"
  by (cases "length y = 0") (simp_all add: sum_subtractf np_mean_sum)

lemma sxx_sum: "sxx n = (\<Sum>k<n. (real k - tbar n)\<^sup>2)"
  by (simp add: sxx_def sum_list_upt)

lemma sxy_sum: "sxy y = (\<Sum>k<length y. (real k - tbar (length y)) * (y ! k - np_mean y))"
  by (simp add: sxy_def sum_list_upt)

lemma sxx_zero: "sxx n = 0 \<Longrightarrow> k < n \<Longrightarrow> real k - tbar n = 0"
proof -
  assume z: "sxx n = 0" and k: "k < n"
  have "(\<Sum>k<n. (real k - tbar n)\<^sup>2) = 0"
    using z by (simp add: sxx_sum)
  then have "\<forall>k\<in>{..<n}. (real k - tbar n)\<^sup>2 = 0"
    by (subst (asm) sum_nonneg_eq_0_iff) auto
  with k show ?thesis by simp
qed

lemma slope_normal: "slope y * sxx (length y) = sxy y"
proof (cases "sxx (length y) = 0")
  case True
  then have "sxy y = 0"
    by (simp add: sxy_sum sxx_zero)
  with True show ?thesis by simp
next
  case False
  then show ?thesis by (simp add: slope_def)
qed

lemma residual_sum: "(\<Sum>k<length y. detrend y ! k) = 0"
proof -
  have "(\<Sum>k<length y. detrend y ! k)
          = (\<Sum>k<length y. (y ! k - np_mean y) - slope y * (real k - tbar (length y)))"
    by (rule sum.cong) (simp_all add: detrend_nth trend_def)
  also have "\<dots> = (\<Sum>k<length y. y ! k - np_mean y)
                    - (\<Sum>k<length y. slope y * (real k - tbar (length y)))"
    by (rule sum_subtractf)
  also have "(\<Sum>k<length y. slope y * (real k - tbar (length y)))
               = slope y * (\<Sum>k<length y. real k - tbar (length y))"
    by (rule sum_distrib_left [symmetric])
  finally show ?thesis
    by (simp only: centred_times centred_values mult_zero_right diff_zero)
qed

lemma residual_moment: "(\<Sum>k<length y. (real k - tbar (length y)) * detrend y ! k) = 0"
proof -
  let ?T = "tbar (length y)"
  have "(\<Sum>k<length y. (real k - ?T) * detrend y ! k)
          = (\<Sum>k<length y. (real k - ?T) * (y ! k - np_mean y) - slope y * (real k - ?T)\<^sup>2)"
    by (rule sum.cong) (simp_all add: detrend_nth trend_def algebra_simps power2_eq_square)
  also have "\<dots> = sxy y - slope y * sxx (length y)"
    by (simp add: sum_subtractf sum_distrib_left sxy_sum sxx_sum)
  finally show ?thesis
    by (simp add: slope_normal)
qed

lemma np_mean_detrend: "np_mean (detrend y) = 0"
  using residual_sum [of y] by (simp add: np_mean_sum length_detrend)

lemma sxy_detrend: "sxy (detrend y) = 0"
  using residual_moment [of y] by (simp add: sxy_sum length_detrend np_mean_detrend)

lemma slope_detrend: "slope (detrend y) = 0"
  by (simp add: slope_def sxy_detrend)

lemma detrend_idempotent: "detrend (detrend y) = detrend y"
proof (rule nth_equalityI)
  show "length (detrend (detrend y)) = length (detrend y)"
    by (simp add: length_detrend)
  fix k assume "k < length (detrend (detrend y))"
  then have "k < length (detrend y)"
    by (simp add: length_detrend)
  then show "detrend (detrend y) ! k = detrend y ! k"
    by (simp add: detrend_nth [of k "detrend y"] trend_def np_mean_detrend slope_detrend)
qed

lemma detrend_least_squares:
  "(\<Sum>k<length y. (detrend y ! k)\<^sup>2) \<le> (\<Sum>k<length y. (y ! k - (a + b * real k))\<^sup>2)"
proof -
  let ?T = "tbar (length y)"
  define c0 where "c0 = np_mean y - slope y * ?T - a"
  define c1 where "c1 = slope y - b"
  let ?d = "\<lambda>k. c0 + c1 * real k"
  have split: "y ! k - (a + b * real k) = detrend y ! k + ?d k" if "k < length y" for k
    using that by (simp add: detrend_nth trend_def c0_def c1_def algebra_simps)
  have d_alt: "?d k = (c0 + c1 * ?T) + c1 * (real k - ?T)" for k
    by (simp add: algebra_simps)
  have cross: "(\<Sum>k<length y. detrend y ! k * ?d k) = 0"
  proof -
    have "(\<Sum>k<length y. detrend y ! k * ?d k)
            = (\<Sum>k<length y. (c0 + c1 * ?T) * detrend y ! k
                              + c1 * ((real k - ?T) * detrend y ! k))"
      by (rule sum.cong) (simp_all add: algebra_simps)
    also have "\<dots> = (c0 + c1 * ?T) * (\<Sum>k<length y. detrend y ! k)
                      + c1 * (\<Sum>k<length y. (real k - ?T) * detrend y ! k)"
      by (simp add: sum.distrib sum_distrib_left)
    finally show ?thesis
      by (simp add: residual_sum residual_moment)
  qed
  have "(\<Sum>k<length y. (y ! k - (a + b * real k))\<^sup>2)
          = (\<Sum>k<length y. (detrend y ! k)\<^sup>2 + 2 * (detrend y ! k * ?d k) + (?d k)\<^sup>2)"
    by (rule sum.cong) (simp_all add: split power2_eq_square algebra_simps)
  also have "\<dots> = (\<Sum>k<length y. (detrend y ! k)\<^sup>2)
                    + 2 * (\<Sum>k<length y. detrend y ! k * ?d k)
                    + (\<Sum>k<length y. (?d k)\<^sup>2)"
    by (simp add: sum.distrib sum_distrib_left)
  also have "\<dots> = (\<Sum>k<length y. (detrend y ! k)\<^sup>2) + (\<Sum>k<length y. (?d k)\<^sup>2)"
    by (simp add: cross)
  finally show ?thesis
    by (simp add: sum_nonneg)
qed

lemma map2_idem:
  "(\<And>t x. g t (g t x) = g t x) \<Longrightarrow> map2 g ts (map2 g ts xs) = map2 g ts xs"
proof (induction ts arbitrary: xs)
  case Nil
  then show ?case by simp
next
  case (Cons t ts)
  then show ?case by (cases xs) simp_all
qed

lemma signal_detrend_ok:
  "''eeg'' \<in> set (ch_types data) \<Longrightarrow>
   signal_detrend data =
     Inr (data\<lparr>signals := map2 (\<lambda>t row. if t = ''eeg'' then detrend row else row)
                               (ch_types data) (signals data)\<rparr>)"
  by (simp add: signal_detrend_def apply_function_def)

lemma signal_detrend_twice:
  "(case signal_detrend data of Inl e \<Rightarrow> Inl e | Inr d \<Rightarrow> signal_detrend d) = signal_detrend data"
proof (cases "''eeg'' \<in> set (ch_types data)")
  case False
  then show ?thesis
    by (simp add: signal_detrend_def apply_function_def)
next
  case True
  let ?g = "\<lambda>t row. if t = ''eeg'' then detrend row else row"
  have "map2 ?g (ch_types data) (map2 ?g (ch_types data) (signals data))
          = map2 ?g (ch_types data) (signals data)"
    by (rule map2_idem) (simp add: detrend_idempotent)
  then show ?thesis
    using True by (simp add: signal_detrend_def apply_function_def)
qed

text \<open>
  \<^bold>\<open>C9.\<close> \<^verbatim>\<open>signal_detrend\<close> is idempotent: applying it to its own result gives that result
  again (and a recording without an eeg channel is refused both times). When the
  recording has an eeg channel the call succeeds, every row of an eeg channel is replaced
  by \<open>detrend\<close> of that row alone, and every other row is kept. And \<open>detrend\<close> keeps the
  length of a row and subtracts from it a straight line \<open>a0 + b0 * k\<close> that no straight line
  beats in the sum of squared residuals: the least-squares line. Numbers are real numbers
  here, so idempotence is exact.
\<close>

theorem signal_detrend_idempotent:
  "(case signal_detrend data of Inl e \<Rightarrow> Inl e | Inr d \<Rightarrow> signal_detrend d) = signal_detrend data
   \<and> (''eeg'' \<in> set (ch_types data) \<longrightarrow>
        signal_detrend data =
          Inr (data\<lparr>signals := map2 (\<lambda>t row. if t = ''eeg'' then detrend row else row)
                                    (ch_types data) (signals data)\<rparr>))
   \<and> detrend (detrend y) = detrend y
   \<and> length (detrend y) = length y
   \<and> (\<exists>a0 b0.
         (\<forall>k<length y. detrend y ! k = y ! k - (a0 + b0 * real k))
       \<and> (\<forall>a b. (\<Sum>k<length y. (y ! k - (a0 + b0 * real k))\<^sup>2)
                   \<le> (\<Sum>k<length y. (y ! k - (a + b * real k))\<^sup>2)))"
proof (intro conjI impI)
  show "(case signal_detrend data of Inl e \<Rightarrow> Inl e | Inr d \<Rightarrow> signal_detrend d)
          = signal_detrend data"
    by (rule signal_detrend_twice)
next
  assume "''eeg'' \<in> set (ch_types data)"
  then show "signal_detrend data =
          Inr (data\<lparr>signals := map2 (\<lambda>t row. if t = ''eeg'' then detrend row else row)
                                    (ch_types data) (signals data)\<rparr>)"
    by (rule signal_detrend_ok)
next
  show "detrend (detrend y) = detrend y"
    by (rule detrend_idempotent)
next
  show "length (detrend y) = length y"
    by (rule length_detrend)
next
  let ?a0 = "np_mean y - slope y * tbar (length y)"
  let ?b0 = "slope y"
  have line: "detrend y ! k = y ! k - (?a0 + ?b0 * real k)" if "k < length y" for k
    using that by (simp add: detrend_nth trend_def algebra_simps)
  have best: "(\<Sum>k<length y. (y ! k - (?a0 + ?b0 * real k))\<^sup>2)
                \<le> (\<Sum>k<length y. (y ! k - (a + b * real k))\<^sup>2)" for a b
  proof -
    have "(\<Sum>k<length y. (y ! k - (?a0 + ?b0 * real k))\<^sup>2) = (\<Sum>k<length y. (detrend y ! k)\<^sup>2)"
      by (rule sum.cong) (simp_all add: line)
    then show ?thesis
      using detrend_least_squares [of y a b] by simp
  qed
  show "\<exists>a0 b0.
         (\<forall>k<length y. detrend y ! k = y ! k - (a0 + b0 * real k))
       \<and> (\<forall>a b. (\<Sum>k<length y. (y ! k - (a0 + b0 * real k))\<^sup>2)
                   \<le> (\<Sum>k<length y. (y ! k - (a + b * real k))\<^sup>2))"
    using line best by blast
qed

theorem signal_detrend_idempotent_witness:
  "''eeg'' \<in> set [''eeg'', ''misc'']
   \<and> signal_detrend \<lparr>ch_types = [''eeg'', ''misc''], signals = [[1, 2, 4], [1, 2, 4]]\<rparr>
       = Inr \<lparr>ch_types = [''eeg'', ''misc''], signals = [[1 / 6, - 1 / 3, 1 / 6], [1, 2, 4]]\<rparr>
   \<and> signal_detrend \<lparr>ch_types = [''eeg'', ''misc''], signals = [[1 / 6, - 1 / 3, 1 / 6], [1, 2, 4]]\<rparr>
       = Inr \<lparr>ch_types = [''eeg'', ''misc''], signals = [[1 / 6, - 1 / 3, 1 / 6], [1, 2, 4]]\<rparr>"
proof -
  let ?d = "\<lparr>ch_types = [''eeg'', ''misc''], signals = [[1, 2, 4], [1, 2, 4]]\<rparr>"
  have d: "detrend [1, 2, 4] = [1 / 6, - 1 / 3, 1 / 6]"
    by (simp add: detrend_def np_mean_def Let_def power2_eq_square)
  have mem: "''eeg'' \<in> set (ch_types ?d)"
    by simp
  note T = signal_detrend_idempotent [of ?d "[1, 2, 4]"]
  have first: "signal_detrend ?d
      = Inr \<lparr>ch_types = [''eeg'', ''misc''], signals = [[1 / 6, - 1 / 3, 1 / 6], [1, 2, 4]]\<rparr>"
    using T [THEN conjunct2, THEN conjunct1] mem d by simp
  have "(case signal_detrend ?d of Inl e \<Rightarrow> Inl e | Inr d \<Rightarrow> signal_detrend d) = signal_detrend ?d"
    by (rule T [THEN conjunct1])
  then have second: "signal_detrend \<lparr>ch_types = [''eeg'', ''misc''],
                        signals = [[1 / 6, - 1 / 3, 1 / 6], [1, 2, 4]]\<rparr>
      = Inr \<lparr>ch_types = [''eeg'', ''misc''], signals = [[1 / 6, - 1 / 3, 1 / 6], [1, 2, 4]]\<rparr>"
    by (simp only: first sum.case)
  show ?thesis
    using first second by simp
qed

section \<open>Properties of \<^verbatim>\<open>re_reference\<close>\<close>














end
